theory Spec2Isabelle
  imports Complex_Main "HOL-Library.Multiset"
begin

section \<open>Data model\<close>

text \<open>
  The forms application of the patient chart: the two \<open>FormsList\<close> components (the
  client-side list of \<open>forms-list.component.tsx\<close> and the infinite-scrolling list), and the
  two \<open>FormsDashboard\<close> components that render them. Optional properties are
  \<open>option\<close> values where the code tells \<open>undefined\<close> from a value, and plain values where
  the code only ever reads them after a default or in a boolean test.
\<close>

type_synonym date = nat

text \<open>\<open>Form\<close> of \<open>types\<close>: only \<open>uuid\<close>, \<open>name\<close> and \<open>display\<close> are read by the components.\<close>

record Form =
  uuid :: string
  name :: string
  display :: "string option"

record EncounterWithFormRef =
  encounterUuid :: string
  encounterDatetime :: string

record CompletedFormInfo =
  form :: Form
  associatedEncounters :: "EncounterWithFormRef list"
  lastCompletedDate :: "date option"

text \<open>A JavaScript exception, as a value.\<close>

datatype js_error = TypeError

text \<open>
  The \<open>error\<close> property of the lists is of type \<open>any\<close> and is only ever tested by
  \<open>!error\<close>: a JavaScript value with its truthiness.
\<close>

datatype js_value =
    JSUndefined | JSNull | JSBoolean bool | JSNumber int | JSNaN | JSString string | JSObject

fun truthy :: "js_value \<Rightarrow> bool" where
  "truthy JSUndefined = False"
| "truthy JSNull = False"
| "truthy (JSBoolean b) = b"
| "truthy (JSNumber k) = (k \<noteq> 0)"
| "truthy JSNaN = False"
| "truthy (JSString s) = (s \<noteq> [])"
| "truthy JSObject = True"

text \<open>
  The properties of the infinite-scrolling \<open>FormsList\<close>, as destructured: an absent
  \<open>sectionName\<close> reads as \<open>forms\<close>, an absent \<open>totalLoaded\<close> as \<open>0\<close>, an absent
  \<open>enableInfiniteScrolling\<close> as \<open>false\<close>. \<open>onSearch\<close> and \<open>loadMore\<close> are callbacks: the
  component only tests whether they are given and calls them. \<open>isValidating\<close>, \<open>hasMore\<close> and
  \<open>isLoading\<close> are only read in boolean tests, where \<open>undefined\<close> is \<open>false\<close>.
\<close>

record FormsListProps =
  completedForms :: "CompletedFormInfo list option"
  error :: js_value
  sectionName :: string
  onSearch :: bool
  isValidating :: bool
  loadMore :: bool
  hasMore :: bool
  isLoading :: bool
  totalLoaded :: nat
  enableInfiniteScrolling :: bool

section \<open>Fuzzy filter\<close>

text \<open>The label a form is matched by: \<open>formInfo.form.display ?? formInfo.form.name\<close>.\<close>

definition extract_label :: "CompletedFormInfo \<Rightarrow> string" where
  "extract_label formInfo =
     (case display (form formInfo) of Some d \<Rightarrow> d | None \<Rightarrow> name (form formInfo))"

text \<open>
  \<open>fuzzy.filter\<close> of the external \<open>fuzzy\<close> library. Its scoring function \<open>match\<close> is a
  parameter: \<open>match pattern str\<close> is the score of a match, or \<open>None\<close>; scores are numbers,
  here any linear order. The library returns
  \<open>[]\<close> for a missing or empty array; otherwise it keeps the elements whose extracted string
  matches, each with its score and its index in the array, by descending score and, among equal
  scores, by ascending index.
\<close>

record ('a, 's) fuzzy_result =
  score :: 's
  index :: nat
  original :: 'a

definition fuzzy_matches ::
  "(string \<Rightarrow> string \<Rightarrow> 's option) \<Rightarrow> string \<Rightarrow> ('a \<Rightarrow> string) \<Rightarrow> 'a list \<Rightarrow>
     ('a, 's) fuzzy_result list"
where
  "fuzzy_matches match pattern ex arr =
     concat (map (\<lambda>(idx, element).
        case match pattern (ex element) of
          None \<Rightarrow> []
        | Some s \<Rightarrow> [\<lparr>score = s, index = idx, original = element\<rparr>])
       (enumerate 0 arr))"

definition fuzzy_filter ::
  "(string \<Rightarrow> string \<Rightarrow> ('s::linorder) option) \<Rightarrow> string \<Rightarrow> 'a list option \<Rightarrow> ('a \<Rightarrow> string) \<Rightarrow>
     ('a, 's) fuzzy_result list"
where
  "fuzzy_filter match pattern arr ex =
     (case arr of
        None \<Rightarrow> []
      | Some xs \<Rightarrow> rev (sort_key score (rev (fuzzy_matches match pattern ex xs))))"

text \<open>
  \<open>filteredForms\<close> of the client-side list. \<open>!searchTerm\<close> holds of the empty string.
  \<open>Array.prototype.sort\<close> with the comparator \<open>r1.score - r2.score\<close> is a stable ascending
  sort by score.
\<close>

definition filteredForms_client ::
  "(string \<Rightarrow> string \<Rightarrow> ('s::linorder) option) \<Rightarrow> string \<Rightarrow> CompletedFormInfo list option \<Rightarrow>
     CompletedFormInfo list option"
where
  "filteredForms_client match searchTerm forms =
     (if searchTerm = [] then forms
      else Some (map original (sort_key score (fuzzy_filter match searchTerm forms extract_label))))"

text \<open>
  \<open>filteredForms\<close> of the infinite-scrolling list: with infinite scrolling and an
  \<open>onSearch\<close> callback the search is the server's, and nothing is filtered here.
\<close>

definition filteredForms ::
  "(string \<Rightarrow> string \<Rightarrow> ('s::linorder) option) \<Rightarrow> FormsListProps \<Rightarrow> string \<Rightarrow>
     CompletedFormInfo list option"
where
  "filteredForms match p searchTerm =
     (if enableInfiniteScrolling p \<and> onSearch p then completedForms p
      else if searchTerm = [] then completedForms p
      else Some (map original
             (sort_key score (fuzzy_filter match searchTerm (completedForms p) extract_label))))"

section \<open>What the lists render\<close>

text \<open>
  A table row. \<open>lastCompleted\<close> keeps the date; the framework's \<open>formatDatetime\<close> only
  prints it. \<open>encounterUuid\<close> is \<open>formData?.associatedEncounters[0]?.uuid\<close>.
\<close>

record row =
  row_id :: string
  lastCompleted :: "date option"
  formName :: string
  formUuid :: string
  row_encounterUuid :: "string option"

definition tableRow :: "CompletedFormInfo \<Rightarrow> row" where
  "tableRow formData =
     \<lparr>row_id = uuid (form formData),
      lastCompleted = lastCompletedDate formData,
      formName = extract_label formData,
      formUuid = uuid (form formData),
      row_encounterUuid =
        (case associatedEncounters formData of [] \<Rightarrow> None | e # _ \<Rightarrow> Some (encounterUuid e))\<rparr>"

definition tableRows :: "CompletedFormInfo list option \<Rightarrow> row list" where
  "tableRows filtered = (case filtered of None \<Rightarrow> [] | Some fs \<Rightarrow> map tableRow fs)"

text \<open>
  The search handler a \<open>FormsTable\<close> is given: the \<open>onSearch\<close> property itself, or the
  component's \<open>handleSearch\<close>, debounced by the given number of milliseconds.
\<close>

datatype search_handler = OnSearchProp | DebouncedHandleSearch nat

datatype sentinel_content = InlineLoading | ScrollToLoadMore

text \<open>
  \<open>FormsTable rows handler total\<close> is the table with its search box. An infinite-scroll
  container holds the table, the load-more sentinel when there is one, and the end-of-results
  line with its count when there is one.
\<close>

datatype forms_table = FormsTable "row list" search_handler "nat option"

datatype table_component =
    InfiniteScrollContainer forms_table "sentinel_content option" "nat option"
  | PlainTable forms_table

datatype view =
    DataTableSkeleton
  | EmptyFragment
  | ResponsiveWrapper "string option" table_component

definition tableComponent ::
  "(string \<Rightarrow> string \<Rightarrow> ('s::linorder) option) \<Rightarrow> FormsListProps \<Rightarrow> string \<Rightarrow> table_component"
where
  "tableComponent match p searchTerm =
     (let rows = tableRows (filteredForms match p searchTerm) in
      if enableInfiniteScrolling p then
        InfiniteScrollContainer
          (FormsTable rows
             (if onSearch p then OnSearchProp else DebouncedHandleSearch 1000)
             (Some (totalLoaded p)))
          (if hasMore p
           then Some (if isValidating p then InlineLoading else ScrollToLoadMore)
           else None)
          (if \<not> hasMore p \<and>
              (case completedForms p of None \<Rightarrow> False | Some fs \<Rightarrow> length fs > 0)
           then Some (totalLoaded p) else None)
      else PlainTable (FormsTable rows (DebouncedHandleSearch 1000) (Some (totalLoaded p))))"

text \<open>The infinite-scrolling \<open>FormsList\<close>: the two early returns, then the table.\<close>

definition FormsList ::
  "(string \<Rightarrow> string \<Rightarrow> ('s::linorder) option) \<Rightarrow> FormsListProps \<Rightarrow> string \<Rightarrow> view"
where
  "FormsList match p searchTerm =
     (if completedForms p = None \<and> \<not> truthy (error p) \<and> (isLoading p \<or> isValidating p)
      then DataTableSkeleton
      else if (case completedForms p of None \<Rightarrow> False | Some fs \<Rightarrow> length fs = 0) \<and>
              \<not> isLoading p
      then EmptyFragment
      else if sectionName p = ''forms''
      then ResponsiveWrapper None (tableComponent match p searchTerm)
      else ResponsiveWrapper (Some (sectionName p)) (tableComponent match p searchTerm))"

text \<open>
  The client-side \<open>FormsList\<close>: its properties are the forms, the error, the section
  name (absent: \<open>forms\<close>) and \<open>totalForms\<close>; the search term comes from the forms context.
\<close>

definition FormsList_client ::
  "(string \<Rightarrow> string \<Rightarrow> ('s::linorder) option) \<Rightarrow> CompletedFormInfo list option \<Rightarrow>
     js_value \<Rightarrow> string \<Rightarrow> nat option \<Rightarrow> string \<Rightarrow> view"
where
  "FormsList_client match forms err section totalForms searchTerm =
     (if forms = None \<and> \<not> truthy err then DataTableSkeleton
      else if (case forms of None \<Rightarrow> False | Some fs \<Rightarrow> length fs = 0) then EmptyFragment
      else ResponsiveWrapper (if section \<noteq> ''forms'' then Some section else None)
             (PlainTable (FormsTable (tableRows (filteredForms_client match searchTerm forms))
                (DebouncedHandleSearch 300) totalForms)))"

text \<open>What a view holds.\<close>

fun table_of :: "view \<Rightarrow> forms_table option" where
  "table_of (ResponsiveWrapper _ (InfiniteScrollContainer t _ _)) = Some t"
| "table_of (ResponsiveWrapper _ (PlainTable t)) = Some t"
| "table_of _ = None"

fun sentinel_of :: "view \<Rightarrow> sentinel_content option" where
  "sentinel_of (ResponsiveWrapper _ (InfiniteScrollContainer _ s _)) = s"
| "sentinel_of _ = None"

fun endOfResults_of :: "view \<Rightarrow> nat option" where
  "endOfResults_of (ResponsiveWrapper _ (InfiniteScrollContainer _ _ e)) = e"
| "endOfResults_of _ = None"

section \<open>The dashboards\<close>

text \<open>
  A form section of the configuration (\<open>name\<close> and \<open>forms\<close> in the source), and the section
  the dashboard makes of it, \<open>{...formSection, availableForms: ...}\<close>.
\<close>

record FormSection =
  section_name :: string
  section_forms :: "string list"

record SectionWithForms = FormSection +
  availableForms :: "CompletedFormInfo list option"

text \<open>
  What \<open>useForms\<close> and \<open>useInfiniteForms\<close> return, as the dashboards destructure it. The
  hooks themselves are outside the files at hand; their results are inputs here.
\<close>

record forms_result =
  res_data :: "CompletedFormInfo list option"
  res_allForms :: "CompletedFormInfo list option"
  res_error :: js_value
  res_isValidating :: bool
  res_loadMore :: bool
  res_hasMore :: bool
  res_isLoading :: bool
  res_totalLoaded :: nat
  res_totalCount :: "nat option"

definition formInSection :: "FormSection \<Rightarrow> CompletedFormInfo \<Rightarrow> bool" where
  "formInSection formSection formInfo =
     list_ex (\<lambda>formConfig. uuid (form formInfo) = formConfig \<or> name (form formInfo) = formConfig)
       (section_forms formSection)"

text \<open>\<open>config.formSections?.map(...)\<close>: \<open>undefined\<close> when the configuration has no sections.\<close>

definition sections ::
  "FormSection list option \<Rightarrow> CompletedFormInfo list option \<Rightarrow> SectionWithForms list option"
where
  "sections formSections forms =
     map_option (map (\<lambda>formSection.
        \<lparr>section_name = section_name formSection,
         section_forms = section_forms formSection,
         availableForms = map_option (filter (formInSection formSection)) forms\<rparr>))
       formSections"

text \<open>
  The result the infinite-scrolling dashboard goes on with: the infinite one, or the regular
  one with \<open>loadMore: undefined, hasMore: false, isLoading: false\<close> and
  \<open>totalLoaded: regularFormsResult.allForms?.length || 0\<close>.
\<close>

definition selectedResult :: "bool \<Rightarrow> forms_result \<Rightarrow> forms_result \<Rightarrow> forms_result" where
  "selectedResult useInfiniteScrolling infiniteFormsResult regularFormsResult =
     (if useInfiniteScrolling then infiniteFormsResult
      else regularFormsResult
             \<lparr>res_loadMore := False, res_hasMore := False, res_isLoading := False,
              res_totalLoaded :=
                (case res_allForms regularFormsResult of None \<Rightarrow> 0 | Some fs \<Rightarrow> length fs)\<rparr>)"

datatype 'c dashboard_view = EmptyState | Container "'c list"

definition listProps ::
  "string \<Rightarrow> CompletedFormInfo list option \<Rightarrow> forms_result \<Rightarrow> bool \<Rightarrow> FormsListProps"
where
  "listProps section forms r useInfiniteScrolling =
     \<lparr>completedForms = forms, error = res_error r, sectionName = section, onSearch = True,
      isValidating = res_isValidating r, loadMore = res_loadMore r, hasMore = res_hasMore r,
      isLoading = res_isLoading r, totalLoaded = res_totalLoaded r,
      enableInfiniteScrolling = useInfiniteScrolling\<rparr>"

text \<open>
  \<open>FormsDashboard\<close> of \<open>forms-dashboard.component.tsx\<close>. \<open>forms?.length === 0\<close> is the
  empty state; after it \<open>sections.length\<close> is read, which throws when \<open>sections\<close> is
  \<open>undefined\<close>. The result is the list of the \<open>FormsList\<close> elements with their properties.
\<close>

definition FormsDashboard ::
  "bool option \<Rightarrow> bool \<Rightarrow> FormSection list option \<Rightarrow> forms_result \<Rightarrow> forms_result \<Rightarrow>
     js_error + FormsListProps dashboard_view"
where
  "FormsDashboard enableInfiniteScrollingProp configEnableInfiniteScrolling formSections
       infiniteFormsResult regularFormsResult =
     (let useInfiniteScrolling =
            (case enableInfiniteScrollingProp of
               Some b \<Rightarrow> b | None \<Rightarrow> configEnableInfiniteScrolling);
          r = selectedResult useInfiniteScrolling infiniteFormsResult regularFormsResult;
          forms = res_data r
      in if (case forms of None \<Rightarrow> False | Some fs \<Rightarrow> length fs = 0) then Inr EmptyState
         else case sections formSections forms of
                None \<Rightarrow> Inl TypeError
              | Some ss \<Rightarrow>
                  if length ss = 0
                  then Inr (Container [listProps ''forms'' forms r useInfiniteScrolling])
                  else Inr (Container (map (\<lambda>s.
                         listProps (section_name s) (availableForms s) r useInfiniteScrolling) ss)))"

text \<open>
  The paginated \<open>FormsDashboard\<close>: the same two tests, over the result of \<open>useForms\<close>. Its
  lists get the forms, the total count (only without sections), the error, the page size and
  the search term.
\<close>

record PagedListProps =
  paged_sectionName :: "string option"
  paged_completedForms :: "CompletedFormInfo list option"
  paged_totalForms :: "nat option"
  paged_error :: js_value
  paged_pageSize :: nat
  paged_searchTerm :: string

definition FormsDashboard_paged ::
  "FormSection list option \<Rightarrow> forms_result \<Rightarrow> nat \<Rightarrow> string \<Rightarrow>
     js_error + PagedListProps dashboard_view"
where
  "FormsDashboard_paged formSections r pageSize searchTerm =
     (let forms = res_data r
      in if (case forms of None \<Rightarrow> False | Some fs \<Rightarrow> length fs = 0) then Inr EmptyState
         else case sections formSections forms of
                None \<Rightarrow> Inl TypeError
              | Some ss \<Rightarrow>
                  if length ss = 0
                  then Inr (Container
                         [\<lparr>paged_sectionName = None, paged_completedForms = forms,
                           paged_totalForms = res_totalCount r, paged_error = res_error r,
                           paged_pageSize = pageSize, paged_searchTerm = searchTerm\<rparr>])
                  else Inr (Container (map (\<lambda>s.
                         \<lparr>paged_sectionName = Some (section_name s),
                          paged_completedForms = availableForms s,
                          paged_totalForms = None, paged_error = res_error r,
                          paged_pageSize = pageSize, paged_searchTerm = searchTerm\<rparr>) ss)))"



section \<open>Infinite scrolling: the triggers of a continuation\<close>

text \<open>
  The infinite-scrolling \<open>FormsList\<close> asks for the next page by calling \<open>loadMore\<close> from
  three places: the callback of an \<open>IntersectionObserver\<close>, a 100 ms timeout set by the
  callback ref of the sentinel, and a 300 ms timeout set by an effect. Each of them is a
  closure: it reads the \<open>hasMore\<close>, \<open>isValidating\<close> and \<open>loadMore\<close> of the render that made
  it. A closure is modelled by the properties it has captured.
\<close>

type_synonym node = nat

record observer =
  callbackProps :: FormsListProps
  targets :: "node list"

definition observe :: "node \<Rightarrow> observer \<Rightarrow> observer" where
  "observe n ob = ob\<lparr>targets := (if n \<in> set (targets ob) then targets ob else targets ob @ [n])\<rparr>"

definition unobserve :: "node \<Rightarrow> observer \<Rightarrow> observer" where
  "unobserve n ob = ob\<lparr>targets := removeAll n (targets ob)\<rparr>"

definition disconnect :: "observer \<Rightarrow> observer" where
  "disconnect ob = ob\<lparr>targets := []\<rparr>"

text \<open>The three places a call of \<open>loadMore\<close> can come from.\<close>

datatype trigger = ByObserver | ByRefTimeout | ByRecheck

text \<open>
  The state of the machinery: the properties of the last committed render, the sentinel
  element in the document, the observer in \<open>observerRef.current\<close>, the observers that ref
  has held before and that nothing refers to any more (they go on observing what they
  observe), whether the observer effect has left a cleanup, the node in
  \<open>loadMoreRef.current\<close>, the pending timeouts with what they captured, and the log of the
  calls of \<open>loadMore\<close>. A call is logged with where it came from, the properties its closure had
  captured and the properties that were rendered when it was made.
\<close>

record scroll =
  rendered :: FormsListProps
  sentinel :: "node option"
  nextNode :: node
  observerRef :: "observer option"
  orphans :: "observer list"
  observerCleanup :: bool
  loadMoreRef :: "node option"
  refTimeouts :: "(node \<times> FormsListProps) list"
  recheckTimeout :: "FormsListProps option"
  loadMoreCalls :: "(trigger \<times> FormsListProps \<times> FormsListProps) list"

definition call_loadMore :: "trigger \<Rightarrow> FormsListProps \<Rightarrow> scroll \<Rightarrow> scroll" where
  "call_loadMore via captured c =
     c\<lparr>loadMoreCalls := loadMoreCalls c @ [(via, captured, rendered c)]\<rparr>"

text \<open>
  An observer's callback, given \<open>entries[0].isIntersecting\<close>: whether it calls \<open>loadMore\<close>.
\<close>

definition observer_callback :: "FormsListProps \<Rightarrow> bool \<Rightarrow> bool" where
  "observer_callback p firstIsIntersecting =
     (firstIsIntersecting \<and> hasMore p \<and> \<not> isValidating p)"

text \<open>
  The effect that sets the observer up. It returns early, with no cleanup, unless infinite
  scrolling is on and \<open>loadMore\<close> is given. Otherwise it makes an observer and puts it in
  \<open>observerRef.current\<close> over the one that was there, which it does not disconnect. Its
  cleanup disconnects the observer that is in \<open>observerRef.current\<close> then.
\<close>

definition observer_effect :: "FormsListProps \<Rightarrow> scroll \<Rightarrow> scroll" where
  "observer_effect p c =
     (if \<not> enableInfiniteScrolling p \<or> \<not> loadMore p then c\<lparr>observerCleanup := False\<rparr>
      else
        let ob = \<lparr>callbackProps = p, targets = []\<rparr>
        in c\<lparr>orphans := orphans c @ (case observerRef c of Some old \<Rightarrow> [old] | None \<Rightarrow> []),
             observerRef :=
               Some (case loadMoreRef c of Some n \<Rightarrow> observe n ob | None \<Rightarrow> ob),
             observerCleanup := True\<rparr>)"

definition observer_cleanup :: "scroll \<Rightarrow> scroll" where
  "observer_cleanup c =
     (case observerRef c of
        Some ob \<Rightarrow> c\<lparr>observerRef := Some (disconnect ob)\<rparr>
      | None \<Rightarrow> c)"

text \<open>
  \<open>setLoadMoreRef\<close>, the callback ref of the sentinel. With a node, an observer, \<open>hasMore\<close>
  and infinite scrolling it observes the node and sets a timeout of 100 ms, which nothing
  clears.
\<close>

definition setLoadMoreRef :: "FormsListProps \<Rightarrow> node option \<Rightarrow> scroll \<Rightarrow> scroll" where
  "setLoadMoreRef p node c =
     (let c1 = (case (loadMoreRef c, observerRef c) of
                  (Some previous, Some ob) \<Rightarrow> c\<lparr>observerRef := Some (unobserve previous ob)\<rparr>
                | _ \<Rightarrow> c);
          c2 = c1\<lparr>loadMoreRef := node\<rparr>
      in case (node, observerRef c2) of
           (Some n, Some ob) \<Rightarrow>
             if hasMore p \<and> enableInfiniteScrolling p
             then c2\<lparr>observerRef := Some (observe n ob),
                     refTimeouts := refTimeouts c2 @ [(n, p)]\<rparr>
             else c2
         | _ \<Rightarrow> c2)"

text \<open>
  The body of that timeout, given \<open>node.getBoundingClientRect().top\<close> and
  \<open>window.innerHeight\<close>; \<open>loadMore?.()\<close> calls only a \<open>loadMore\<close> that is given.
\<close>

definition refTimeout_body :: "FormsListProps \<Rightarrow> real \<Rightarrow> real \<Rightarrow> scroll \<Rightarrow> scroll" where
  "refTimeout_body p nodeTop windowHeight c =
     (if nodeTop < windowHeight \<and> hasMore p \<and> \<not> isValidating p
      then (if loadMore p then call_loadMore ByRefTimeout p c else c)
      else c)"

text \<open>
  The effect that re-checks the visibility after 300 ms; its cleanup clears the timeout.
\<close>

definition recheck_effect :: "FormsListProps \<Rightarrow> scroll \<Rightarrow> scroll" where
  "recheck_effect p c =
     (if enableInfiniteScrolling p \<and> hasMore p \<and> \<not> isValidating p \<and> loadMore p
      then c\<lparr>recheckTimeout := Some p\<rparr>
      else c)"

definition recheck_cleanup :: "scroll \<Rightarrow> scroll" where
  "recheck_cleanup c = c\<lparr>recheckTimeout := None\<rparr>"

text \<open>
  What the body of the 300 ms timeout measures: the window's inner height, the product
  \<open>viewportHeight * 0.8\<close> as the engine computes it in floating point, the height of the
  element of class \<open>infiniteScrollContainer\<close> when the document has one, and the top of the
  element \<open>loadMoreRef.current\<close>, read only when that ref holds a node.
\<close>

record measurements =
  innerHeight :: real
  innerHeightTimes08 :: real
  containerHeight :: "real option"
  sentinelTop :: real

definition toLowerCase :: "string \<Rightarrow> string" where
  "toLowerCase s =
     map (\<lambda>ch. let k = (of_char ch :: nat) in if 65 \<le> k \<and> k \<le> 90 then char_of (k + 32) else ch) s"

definition includes_str :: "string \<Rightarrow> string \<Rightarrow> bool" where
  "includes_str s sub = list_ex (\<lambda>i. take (length sub) (drop i s) = sub) [0..<Suc (length s)]"

definition shouldLoadMore :: "FormsListProps \<Rightarrow> bool \<Rightarrow> measurements \<Rightarrow> real \<Rightarrow> bool" where
  "shouldLoadMore p refHoldsNode m height =
     (let isRFESection = includes_str (toLowerCase (sectionName p)) ''rfe''
      in height < innerHeightTimes08 m \<or>
         (refHoldsNode \<and> sentinelTop m < innerHeight m) \<or>
         (isRFESection \<and>
          (case completedForms p of
             None \<Rightarrow> False
           | Some fs \<Rightarrow> length fs < 20 \<and> totalLoaded p > length fs)))"

definition recheckTimeout_body :: "FormsListProps \<Rightarrow> measurements \<Rightarrow> scroll \<Rightarrow> scroll" where
  "recheckTimeout_body p m c =
     (case containerHeight m of
        None \<Rightarrow> c
      | Some height \<Rightarrow>
          if shouldLoadMore p (loadMoreRef c \<noteq> None) m height
          then call_loadMore ByRecheck p c else c)"

text \<open>
  Whether a render shows the sentinel: past the two early returns, with infinite scrolling and
  \<open>hasMore\<close>.
\<close>

definition rendersSentinel :: "FormsListProps \<Rightarrow> bool" where
  "rendersSentinel p =
     (\<not> (completedForms p = None \<and> \<not> truthy (error p) \<and> (isLoading p \<or> isValidating p)) \<and>
      \<not> ((case completedForms p of None \<Rightarrow> False | Some fs \<Rightarrow> length fs = 0) \<and> \<not> isLoading p) \<and>
      enableInfiniteScrolling p \<and> hasMore p)"

text \<open>
  The list returns its table alone when the section name is \<open>forms\<close>, and after a heading
  otherwise. Between the two the elements do not line up, and React makes the container and
  its sentinel anew.
\<close>

definition wrapper_changed :: "FormsListProps \<Rightarrow> FormsListProps \<Rightarrow> bool" where
  "wrapper_changed previous p =
     ((sectionName previous = ''forms'') \<noteq> (sectionName p = ''forms''))"

text \<open>
  The dependency lists of the callback ref and of the two effects, as far as values go. React
  compares the array \<open>completedForms\<close> and the function \<open>loadMore\<close> by identity: a render says
  of each whether it is a new object.
\<close>

definition ref_deps :: "FormsListProps \<Rightarrow> bool \<times> bool \<times> bool \<times> bool" where
  "ref_deps p = (hasMore p, enableInfiniteScrolling p, loadMore p, isValidating p)"

definition observer_deps :: "FormsListProps \<Rightarrow> bool \<times> bool \<times> bool \<times> bool" where
  "observer_deps p = (enableInfiniteScrolling p, loadMore p, hasMore p, isValidating p)"

definition recheck_deps ::
  "FormsListProps \<Rightarrow>
     CompletedFormInfo list option \<times> bool \<times> bool \<times> bool \<times> bool \<times> string \<times> nat"
where
  "recheck_deps p =
     (completedForms p, enableInfiniteScrolling p, hasMore p, isValidating p, loadMore p,
      sectionName p, totalLoaded p)"

record identities =
  freshForms :: bool
  freshLoadMore :: bool

definition ref_changed :: "FormsListProps \<Rightarrow> FormsListProps \<Rightarrow> identities \<Rightarrow> bool" where
  "ref_changed previous p ids =
     (ref_deps previous \<noteq> ref_deps p \<or> (freshLoadMore ids \<and> loadMore p))"

definition observer_changed :: "FormsListProps \<Rightarrow> FormsListProps \<Rightarrow> identities \<Rightarrow> bool" where
  "observer_changed previous p ids =
     (observer_deps previous \<noteq> observer_deps p \<or> (freshLoadMore ids \<and> loadMore p))"

definition recheck_changed :: "FormsListProps \<Rightarrow> FormsListProps \<Rightarrow> identities \<Rightarrow> bool" where
  "recheck_changed previous p ids =
     (recheck_deps previous \<noteq> recheck_deps p \<or> (freshLoadMore ids \<and> loadMore p) \<or>
      (freshForms ids \<and> completedForms p \<noteq> None))"

text \<open>
  The first commit: the sentinel's ref is attached, then the effects run.
\<close>

definition mount :: "FormsListProps \<Rightarrow> scroll" where
  "mount p =
     (let c0 = \<lparr>rendered = p, sentinel = None, nextNode = 0, observerRef = None, orphans = [],
                observerCleanup = False, loadMoreRef = None, refTimeouts = [],
                recheckTimeout = None, loadMoreCalls = []\<rparr>;
          c1 = (if rendersSentinel p
                then (setLoadMoreRef p (Some 0) c0)\<lparr>sentinel := Some 0, nextNode := 1\<rparr>
                else c0)
      in recheck_effect p (observer_effect p c1))"

text \<open>
  A later commit, as React performs it, in three steps. The callback ref that is attached is
  called with \<open>null\<close> when its identity has changed, and when its element leaves the
  document or is made anew.
\<close>

definition detach_ref :: "FormsListProps \<Rightarrow> identities \<Rightarrow> scroll \<Rightarrow> scroll" where
  "detach_ref p ids c =
     (case sentinel c of
        Some n \<Rightarrow>
          if \<not> rendersSentinel p \<or> wrapper_changed (rendered c) p \<or>
             ref_changed (rendered c) p ids
          then setLoadMoreRef (rendered c) None c else c
      | None \<Rightarrow> c)"

text \<open>
  Then the new callback ref is called with the node: with a new node when the element has
  entered the document or was made anew, with the same node when only the identity of the
  callback has changed.
\<close>

definition attach_ref :: "FormsListProps \<Rightarrow> identities \<Rightarrow> scroll \<Rightarrow> scroll" where
  "attach_ref p ids c =
     (if rendersSentinel p
      then (if sentinel c = None \<or> wrapper_changed (rendered c) p
            then (setLoadMoreRef p (Some (nextNode c)) c)
                   \<lparr>sentinel := Some (nextNode c), nextNode := Suc (nextNode c)\<rparr>
            else if ref_changed (rendered c) p ids
            then setLoadMoreRef p (sentinel c) c
            else c)
      else c\<lparr>sentinel := None\<rparr>)"

text \<open>
  Last, each effect whose dependencies have changed runs its cleanup, if it has one, and
  runs again.
\<close>

definition run_effects :: "FormsListProps \<Rightarrow> identities \<Rightarrow> scroll \<Rightarrow> scroll" where
  "run_effects p ids c =
     (let c1 = (if observer_changed (rendered c) p ids
                then observer_effect p (if observerCleanup c then observer_cleanup c else c)
                else c)
      in if recheck_changed (rendered c) p ids
         then recheck_effect p (recheck_cleanup c1)
         else c1)"

definition commit :: "FormsListProps \<Rightarrow> identities \<Rightarrow> scroll \<Rightarrow> scroll" where
  "commit p ids c = (run_effects p ids (attach_ref p ids (detach_ref p ids c)))\<lparr>rendered := p\<rparr>"

text \<open>
  A change of the intersection of a node is reported to every observer that observes it, the
  orphans first, in the order they were made.
\<close>

definition watchers :: "scroll \<Rightarrow> observer list" where
  "watchers c = orphans c @ (case observerRef c of Some ob \<Rightarrow> [ob] | None \<Rightarrow> [])"

definition notify :: "node \<Rightarrow> bool \<Rightarrow> scroll \<Rightarrow> scroll" where
  "notify n isIntersecting c =
     foldl (\<lambda>c' ob.
              if n \<in> set (targets ob) \<and> observer_callback (callbackProps ob) isIntersecting
              then call_loadMore ByObserver (callbackProps ob) c' else c')
       c (watchers c)"

text \<open>
  What can happen to a mounted list: a commit with new properties, a node reported as
  intersecting or not, the oldest 100 ms timeout running, the 300 ms timeout running.
\<close>

datatype scroll_event =
    Commit FormsListProps identities
  | Intersect node bool
  | RefTimeout real real
  | RecheckTimeout measurements

definition step :: "scroll \<Rightarrow> scroll_event \<Rightarrow> scroll" where
  "step c ev =
     (case ev of
        Commit p ids \<Rightarrow> commit p ids c
      | Intersect n b \<Rightarrow> notify n b c
      | RefTimeout nodeTop windowHeight \<Rightarrow>
          (case refTimeouts c of
             [] \<Rightarrow> c
           | (n, p) # rest \<Rightarrow> refTimeout_body p nodeTop windowHeight (c\<lparr>refTimeouts := rest\<rparr>))
      | RecheckTimeout m \<Rightarrow>
          (case recheckTimeout c of
             None \<Rightarrow> c
           | Some p \<Rightarrow> recheckTimeout_body p m (c\<lparr>recheckTimeout := None\<rparr>)))"

definition run :: "FormsListProps \<Rightarrow> scroll_event list \<Rightarrow> scroll" where
  "run p evs = foldl step (mount p) evs"

text \<open>
  The guard every trigger applies to what it has captured, and what an intersection report
  admits: one call for every observer that observes the node and whose closure passes the
  guard.
\<close>

definition guarded :: "FormsListProps \<Rightarrow> bool" where
  "guarded p = (hasMore p \<and> \<not> isValidating p)"

definition admitted :: "node \<Rightarrow> bool \<Rightarrow> scroll \<Rightarrow> (trigger \<times> FormsListProps \<times> FormsListProps) list" where
  "admitted n isIntersecting c =
     map (\<lambda>ob. (ByObserver, callbackProps ob, rendered c))
       (filter (\<lambda>ob. n \<in> set (targets ob) \<and> isIntersecting \<and> guarded (callbackProps ob))
          (watchers c))"

text \<open>
  A list that has infinite scrolling on and a \<open>loadMore\<close> in a render; events whose commits
  all have.
\<close>

definition scrolling_on :: "FormsListProps \<Rightarrow> bool" where
  "scrolling_on p = (enableInfiniteScrolling p \<and> loadMore p)"

fun event_on :: "scroll_event \<Rightarrow> bool" where
  "event_on (Commit p ids) = scrolling_on p"
| "event_on _ = True"


text \<open>
  As long as every render has had infinite scrolling on and a \<open>loadMore\<close>: the observer
  effect has a cleanup, no orphan observes anything, the observer in the ref captured a guard
  that agrees with the rendered one, and no call of an observer was made while the rendered
  properties did not pass the guard.
\<close>

definition observer_inv :: "scroll \<Rightarrow> bool" where
  "observer_inv c =
     (scrolling_on (rendered c) \<and> observerCleanup c \<and>
      list_all (\<lambda>ob. targets ob = []) (orphans c) \<and>
      (case observerRef c of
         None \<Rightarrow> False
       | Some ob \<Rightarrow> guarded (callbackProps ob) = guarded (rendered c)) \<and>
      list_all (\<lambda>(via, captured, shown). via = ByObserver \<longrightarrow> guarded shown) (loadMoreCalls c))"

section \<open>Searching\<close>

text \<open>
  What a committed search term does: the infinite-scrolling list's \<open>handleSearch\<close> sets its
  own \<open>searchTerm\<close> state and calls \<open>onSearch\<close> when that is given; the client-side list's
  \<open>handleSearch\<close> is the \<open>setSearchTerm\<close> of the forms context.
\<close>

datatype search_effect = SetSearchTerm string | OnSearch string

definition handleSearch_body :: "FormsListProps \<Rightarrow> string \<Rightarrow> search_effect list" where
  "handleSearch_body p searchTerm =
     SetSearchTerm searchTerm # (if onSearch p then [OnSearch searchTerm] else [])"

definition handleSearch_body_client :: "string \<Rightarrow> search_effect list" where
  "handleSearch_body_client searchTerm = [SetSearchTerm searchTerm]"

text \<open>The handler the infinite-scrolling list gives its table.\<close>

definition tableHandleSearch :: "FormsListProps \<Rightarrow> search_handler" where
  "tableHandleSearch p =
     (if enableInfiniteScrolling p
      then (if onSearch p then OnSearchProp else DebouncedHandleSearch 1000)
      else DebouncedHandleSearch 1000)"

text \<open>
  \<open>debounce(func, wait)\<close> of lodash with its default options: every call keeps its argument
  and puts the call of \<open>func\<close> off to \<open>wait\<close> milliseconds after it; when that time comes,
  \<open>func\<close> is called once, with the argument of the last call. Time is in milliseconds. A
  list has one debounced function as long as the callback it was made from stays the same
  function, which is taken for granted here. The state of a list's search: whether the list is mounted, the pending call with the time it is
  due, and the effects so far, each with its time.
\<close>

record search =
  mounted :: bool
  timer :: "(nat \<times> string) option"
  emitted :: "(nat \<times> search_effect) list"

definition elapse :: "(string \<Rightarrow> search_effect list) \<Rightarrow> nat \<Rightarrow> search \<Rightarrow> search" where
  "elapse body now s =
     (case timer s of
        None \<Rightarrow> s
      | Some (due, arg) \<Rightarrow>
          if due \<le> now
          then s\<lparr>timer := None, emitted := emitted s @ map (Pair due) (body arg)\<rparr>
          else s)"

text \<open>
  The events of a search: the table calls its handler with the text of the search box at a
  time, once for every input event; the list is unmounted at a time. Neither list cancels its
  debounced function when it unmounts, so unmounting leaves the pending call as it is.
\<close>

datatype search_event = Input nat string | Unmount nat

definition search_step ::
  "search_handler \<Rightarrow> (string \<Rightarrow> search_effect list) \<Rightarrow> search \<Rightarrow> search_event \<Rightarrow> search"
where
  "search_step h body s ev =
     (case ev of
        Input now txt \<Rightarrow>
          (let s1 = elapse body now s
           in if \<not> mounted s1 then s1
              else (case h of
                      OnSearchProp \<Rightarrow> s1\<lparr>emitted := emitted s1 @ [(now, OnSearch txt)]\<rparr>
                    | DebouncedHandleSearch wait \<Rightarrow> s1\<lparr>timer := Some (now + wait, txt)\<rparr>))
      | Unmount now \<Rightarrow> (elapse body now s)\<lparr>mounted := False\<rparr>)"

definition search_run ::
  "search_handler \<Rightarrow> (string \<Rightarrow> search_effect list) \<Rightarrow> search_event list \<Rightarrow> nat \<Rightarrow> search"
where
  "search_run h body evs horizon =
     elapse body horizon
       (foldl (search_step h body) \<lparr>mounted = True, timer = None, emitted = []\<rparr> evs)"

text \<open>The effects of the two lists up to a time, for the events given.\<close>

definition FormsList_search ::
  "FormsListProps \<Rightarrow> search_event list \<Rightarrow> nat \<Rightarrow> (nat \<times> search_effect) list"
where
  "FormsList_search p evs horizon =
     emitted (search_run (tableHandleSearch p) (handleSearch_body p) evs horizon)"

definition FormsList_client_search :: "search_event list \<Rightarrow> nat \<Rightarrow> (nat \<times> search_effect) list" where
  "FormsList_client_search evs horizon =
     emitted (search_run (DebouncedHandleSearch 300) handleSearch_body_client evs horizon)"

text \<open>
  A burst of inputs: each comes less than the wait after the one before it.
\<close>

fun burst :: "nat \<Rightarrow> (nat \<times> string) list \<Rightarrow> bool" where
  "burst wait [] = True"
| "burst wait [x] = True"
| "burst wait ((t1, v1) # (t2, v2) # rest) =
     (t1 \<le> t2 \<and> t2 < t1 + wait \<and> burst wait ((t2, v2) # rest))"

definition inputs :: "(nat \<times> string) list \<Rightarrow> search_event list" where
  "inputs ins = map (\<lambda>(now, txt). Input now txt) ins"


section \<open>The incremental list loader\<close>












section \<open>Example data\<close>

text \<open>A completed form with no encounters, and a scoring function: a match is a prefix.\<close>

definition formInfo :: "string \<Rightarrow> string \<Rightarrow> string option \<Rightarrow> CompletedFormInfo" where
  "formInfo u n d =
     \<lparr>form = \<lparr>uuid = u, name = n, display = d\<rparr>, associatedEncounters = [],
      lastCompletedDate = None\<rparr>"

definition prefix_score :: "string \<Rightarrow> string \<Rightarrow> nat option" where
  "prefix_score pattern str =
     (if take (length pattern) str = pattern then Some (length str) else None)"

text \<open>A hook result over the given forms, with no error.\<close>

definition formsResult :: "CompletedFormInfo list option \<Rightarrow> bool \<Rightarrow> bool \<Rightarrow> forms_result" where
  "formsResult forms validating hm =
     \<lparr>res_data = forms, res_allForms = forms, res_error = JSUndefined, res_isValidating = validating,
      res_loadMore = True, res_hasMore = hm, res_isLoading = False,
      res_totalLoaded = (case forms of None \<Rightarrow> 0 | Some fs \<Rightarrow> length fs),
      res_totalCount = map_option length forms\<rparr>"

text \<open>
  An infinite-scrolling list with an \<open>onSearch\<close> and a \<open>loadMore\<close> callback, and four
  renders of it: the initial load, the first page shown, the next page being fetched, and
  both pages shown with nothing more to fetch; and a render of the initial load that has an
  empty array of forms and does not report a validation.
\<close>

definition scrollingList ::
  "CompletedFormInfo list option \<Rightarrow> bool \<Rightarrow> bool \<Rightarrow> bool \<Rightarrow> FormsListProps"
where
  "scrollingList forms loading validating hm =
     \<lparr>completedForms = forms, error = JSUndefined, sectionName = ''forms'', onSearch = True,
      isValidating = validating, loadMore = True, hasMore = hm, isLoading = loading,
      totalLoaded = (case forms of None \<Rightarrow> 0 | Some fs \<Rightarrow> length fs),
      enableInfiniteScrolling = True\<rparr>"

definition firstPage :: "CompletedFormInfo list" where
  "firstPage = [formInfo ''u1'' ''Vitals'' None]"

definition bothPages :: "CompletedFormInfo list" where
  "bothPages = [formInfo ''u1'' ''Vitals'' None, formInfo ''u2'' ''Lab'' None]"

definition initialLoad :: FormsListProps where
  "initialLoad = scrollingList None True True True"

definition firstPageShown :: FormsListProps where
  "firstPageShown = scrollingList (Some firstPage) False False True"

definition fetchingMore :: FormsListProps where
  "fetchingMore = scrollingList (Some firstPage) False True True"

definition allShown :: FormsListProps where
  "allShown = scrollingList (Some bothPages) False False False"


text \<open>A render of the first page with infinite scrolling off.\<close>

definition scrollingOff :: FormsListProps where
  "scrollingOff = firstPageShown\<lparr>enableInfiniteScrolling := False\<rparr>"

text \<open>
  A render with a new array of forms and the same \<open>loadMore\<close> function as before, and one
  with the same array as well.
\<close>

definition newForms :: identities where
  "newForms = \<lparr>freshForms = True, freshLoadMore = False\<rparr>"

definition sameObjects :: identities where
  "sameObjects = \<lparr>freshForms = False, freshLoadMore = False\<rparr>"


text \<open>
  A list without infinite scrolling that has an \<open>onSearch\<close> callback, as the dashboard
  renders it when infinite scrolling is off, and one with no callbacks at all.
\<close>

definition plainList :: "CompletedFormInfo list option \<Rightarrow> FormsListProps" where
  "plainList forms =
     \<lparr>completedForms = forms, error = JSUndefined, sectionName = ''forms'', onSearch = True,
      isValidating = False, loadMore = False, hasMore = False, isLoading = False,
      totalLoaded = (case forms of None \<Rightarrow> 0 | Some fs \<Rightarrow> length fs),
      enableInfiniteScrolling = False\<rparr>"


section \<open>Properties\<close>

subsection \<open>The fuzzy filter\<close>

lemma fuzzy_matches_original_aux:
  "map original (concat (map (\<lambda>(idx, element).
        case match pattern (ex element) of
          None \<Rightarrow> []
        | Some s \<Rightarrow> [\<lparr>score = s, index = idx, original = element\<rparr>])
       (enumerate n arr))) = filter (\<lambda>x. match pattern (ex x) \<noteq> None) arr"
  by (induction arr arbitrary: n) (auto split: option.splits)

lemma fuzzy_matches_original:
  "map original (fuzzy_matches match pattern ex arr) =
   filter (\<lambda>x. match pattern (ex x) \<noteq> None) arr"
  unfolding fuzzy_matches_def by (rule fuzzy_matches_original_aux)

lemma fuzzy_matches_score_aux:
  "r \<in> set (concat (map (\<lambda>(idx, element).
        case match pattern (ex element) of
          None \<Rightarrow> []
        | Some s \<Rightarrow> [\<lparr>score = s, index = idx, original = element\<rparr>])
       (enumerate n arr))) \<Longrightarrow> match pattern (ex (original r)) = Some (score r)"
  by (induction arr arbitrary: n) (auto split: option.splits)

lemma fuzzy_matches_score:
  "r \<in> set (fuzzy_matches match pattern ex arr) \<Longrightarrow>
   match pattern (ex (original r)) = Some (score r)"
  unfolding fuzzy_matches_def by (rule fuzzy_matches_score_aux)

text \<open>The sorted matches are the matching elements, each once for each time it occurs.\<close>

lemma ranked_mset:
  "mset (map original (sort_key score (fuzzy_filter match t (Some fs) ex))) =
   mset (filter (\<lambda>x. match t (ex x) \<noteq> None) fs)"
proof -
  have "mset (map original (sort_key score (fuzzy_filter match t (Some fs) ex))) =
        mset (map original (fuzzy_matches match t ex fs))"
    by (simp add: fuzzy_filter_def)
  then show ?thesis by (simp add: fuzzy_matches_original)
qed

lemma ranked_sorted:
  "sorted (map (\<lambda>x. the (match t (ex x)))
     (map original (sort_key score (fuzzy_filter match t (Some fs) ex))))"
proof -
  let ?rs = "sort_key score (fuzzy_filter match t (Some fs) ex)"
  have mem: "\<And>r. r \<in> set ?rs \<Longrightarrow> the (match t (ex (original r))) = score r"
    by (simp add: fuzzy_filter_def fuzzy_matches_score)
  have "map (\<lambda>x. the (match t (ex x))) (map original ?rs) = map score ?rs"
    using mem by simp
  then show ?thesis by (simp del: map_map)
qed

text \<open>
  C6. Client-side filtering, in both lists. With the empty term the forms come back as they
  are. With a non-empty term \<open>t\<close> over the forms \<open>fs\<close> (in the infinite-scrolling list:
  unless infinite scrolling is on and \<open>onSearch\<close> is given, where nothing is filtered), the
  result holds exactly the forms whose label has a match, as often as \<open>fs\<close> holds them, and
  their scores ascend along the result.
\<close>

theorem filteredForms_matches_ascending:
  fixes match :: "string \<Rightarrow> string \<Rightarrow> ('s::linorder) option"
  shows "filteredForms_client match [] forms = forms \<and>
         filteredForms match p [] = completedForms p \<and>
         (t \<noteq> [] \<longrightarrow>
            (\<exists>out. filteredForms_client match t (Some fs) = Some out \<and>
               mset out = mset (filter (\<lambda>x. match t (extract_label x) \<noteq> None) fs) \<and>
               sorted (map (\<lambda>x. the (match t (extract_label x))) out))) \<and>
         (t \<noteq> [] \<and> \<not> (enableInfiniteScrolling p \<and> onSearch p) \<and> completedForms p = Some fs \<longrightarrow>
            (\<exists>out. filteredForms match p t = Some out \<and>
               mset out = mset (filter (\<lambda>x. match t (extract_label x) \<noteq> None) fs) \<and>
               sorted (map (\<lambda>x. the (match t (extract_label x))) out)))"
proof (intro conjI impI)
  show "filteredForms_client match [] forms = forms"
    by (simp add: filteredForms_client_def)
  show "filteredForms match p [] = completedForms p"
    by (simp add: filteredForms_def)
next
  assume "t \<noteq> []"
  then have "filteredForms_client match t (Some fs) =
      Some (map original (sort_key score (fuzzy_filter match t (Some fs) extract_label)))"
    by (simp add: filteredForms_client_def)
  then show "\<exists>out. filteredForms_client match t (Some fs) = Some out \<and>
               mset out = mset (filter (\<lambda>x. match t (extract_label x) \<noteq> None) fs) \<and>
               sorted (map (\<lambda>x. the (match t (extract_label x))) out)"
    using ranked_mset [of match t fs extract_label] ranked_sorted [of match t extract_label fs]
    by blast
next
  assume a: "t \<noteq> [] \<and> \<not> (enableInfiniteScrolling p \<and> onSearch p) \<and> completedForms p = Some fs"
  then have "filteredForms match p t =
      Some (map original (sort_key score (fuzzy_filter match t (Some fs) extract_label)))"
    by (auto simp add: filteredForms_def)
  then show "\<exists>out. filteredForms match p t = Some out \<and>
               mset out = mset (filter (\<lambda>x. match t (extract_label x) \<noteq> None) fs) \<and>
               sorted (map (\<lambda>x. the (match t (extract_label x))) out)"
    using ranked_mset [of match t fs extract_label] ranked_sorted [of match t extract_label fs]
    by blast
qed

theorem filteredForms_matches_ascending_witness:
  "''Vi'' \<noteq> [] \<and>
   \<not> (enableInfiniteScrolling
        \<lparr>completedForms = Some [formInfo ''u1'' ''Visit note'' None, formInfo ''u2'' ''Lab'' None,
             formInfo ''u3'' ''v'' (Some ''Vitals'')], error = JSUndefined, sectionName = ''forms'',
         onSearch = True, isValidating = False, loadMore = False, hasMore = False,
         isLoading = False, totalLoaded = 3, enableInfiniteScrolling = False\<rparr> \<and>
      onSearch
        \<lparr>completedForms = Some [formInfo ''u1'' ''Visit note'' None, formInfo ''u2'' ''Lab'' None,
             formInfo ''u3'' ''v'' (Some ''Vitals'')], error = JSUndefined, sectionName = ''forms'',
         onSearch = True, isValidating = False, loadMore = False, hasMore = False,
         isLoading = False, totalLoaded = 3, enableInfiniteScrolling = False\<rparr>) \<and>
   filteredForms_client prefix_score ''Vi''
      (Some [formInfo ''u1'' ''Visit note'' None, formInfo ''u2'' ''Lab'' None,
             formInfo ''u3'' ''v'' (Some ''Vitals'')]) =
      Some [formInfo ''u3'' ''v'' (Some ''Vitals''), formInfo ''u1'' ''Visit note'' None] \<and>
   filteredForms prefix_score
        \<lparr>completedForms = Some [formInfo ''u1'' ''Visit note'' None, formInfo ''u2'' ''Lab'' None,
             formInfo ''u3'' ''v'' (Some ''Vitals'')], error = JSUndefined, sectionName = ''forms'',
         onSearch = True, isValidating = False, loadMore = False, hasMore = False,
         isLoading = False, totalLoaded = 3, enableInfiniteScrolling = False\<rparr> ''Vi'' =
      Some [formInfo ''u3'' ''v'' (Some ''Vitals''), formInfo ''u1'' ''Visit note'' None] \<and>
   (\<exists>out. filteredForms_client prefix_score ''Vi''
      (Some [formInfo ''u1'' ''Visit note'' None, formInfo ''u2'' ''Lab'' None,
             formInfo ''u3'' ''v'' (Some ''Vitals'')]) = Some out \<and>
      mset out = mset (filter (\<lambda>x. prefix_score ''Vi'' (extract_label x) \<noteq> None)
         [formInfo ''u1'' ''Visit note'' None, formInfo ''u2'' ''Lab'' None,
             formInfo ''u3'' ''v'' (Some ''Vitals'')]) \<and>
      sorted (map (\<lambda>x. the (prefix_score ''Vi'' (extract_label x))) out))"
proof -
  let ?fs = "[formInfo ''u1'' ''Visit note'' None, formInfo ''u2'' ''Lab'' None,
             formInfo ''u3'' ''v'' (Some ''Vitals'')]"
  let ?p = "\<lparr>completedForms = Some ?fs, error = JSUndefined, sectionName = ''forms'',
         onSearch = True, isValidating = False, loadMore = False, hasMore = False,
         isLoading = False, totalLoaded = 3, enableInfiniteScrolling = False\<rparr>"
  have ev: "filteredForms_client prefix_score ''Vi'' (Some ?fs) =
      Some [formInfo ''u3'' ''v'' (Some ''Vitals''), formInfo ''u1'' ''Visit note'' None]"
    by (simp add: filteredForms_client_def fuzzy_filter_def fuzzy_matches_def prefix_score_def
        formInfo_def extract_label_def enumerate_eq_zip upt_rec)
  have ev2: "filteredForms prefix_score ?p ''Vi'' =
      Some [formInfo ''u3'' ''v'' (Some ''Vitals''), formInfo ''u1'' ''Visit note'' None]"
    by (simp add: filteredForms_def fuzzy_filter_def fuzzy_matches_def prefix_score_def
        formInfo_def extract_label_def enumerate_eq_zip upt_rec)
  show ?thesis
    using filteredForms_matches_ascending [of prefix_score "Some ?fs" ?p "''Vi''" ?fs] ev ev2
    by simp
qed

subsection \<open>Rendering\<close>

text \<open>
  C10. With an empty array of completed forms (and, in the infinite-scrolling list, not
  loading) the list renders the empty fragment: no table with its search box, no load-more
  sentinel and no end-of-results line, whatever \<open>hasMore\<close> and \<open>totalLoaded\<close> are.
\<close>

theorem FormsList_empty_array_renders_nothing:
  fixes match :: "string \<Rightarrow> string \<Rightarrow> ('s::linorder) option"
  assumes "completedForms p = Some []" and "\<not> isLoading p"
  shows "FormsList match p searchTerm = EmptyFragment \<and>
         table_of (FormsList match p searchTerm) = None \<and>
         sentinel_of (FormsList match p searchTerm) = None \<and>
         endOfResults_of (FormsList match p searchTerm) = None \<and>
         FormsList_client match (Some []) err section totalForms searchTerm = EmptyFragment"
  using assms by (simp add: FormsList_def FormsList_client_def)

theorem FormsList_empty_array_renders_nothing_witness:
  "completedForms \<lparr>completedForms = Some [], error = JSUndefined, sectionName = ''forms'',
       onSearch = True, isValidating = False, loadMore = True, hasMore = True,
       isLoading = False, totalLoaded = 5, enableInfiniteScrolling = True\<rparr> = Some [] \<and>
   \<not> isLoading \<lparr>completedForms = Some [], error = JSUndefined, sectionName = ''forms'',
       onSearch = True, isValidating = False, loadMore = True, hasMore = True,
       isLoading = False, totalLoaded = 5, enableInfiniteScrolling = True\<rparr> \<and>
   FormsList prefix_score \<lparr>completedForms = Some [], error = JSUndefined, sectionName = ''forms'',
       onSearch = True, isValidating = False, loadMore = True, hasMore = True,
       isLoading = False, totalLoaded = 5, enableInfiniteScrolling = True\<rparr> ''vi'' =
     EmptyFragment \<and>
   FormsList_client prefix_score (Some []) JSUndefined ''forms'' (Some 5) ''vi'' = EmptyFragment"
  using FormsList_empty_array_renders_nothing
    [of "\<lparr>completedForms = Some [], error = JSUndefined, sectionName = ''forms'',
       onSearch = True, isValidating = False, loadMore = True, hasMore = True,
       isLoading = False, totalLoaded = 5, enableInfiniteScrolling = True\<rparr>"
       prefix_score "''vi''" JSUndefined "''forms''" "Some 5"]
  by simp

text \<open>
  C9. When the forms the dashboard goes on with are a non-empty array, rendering throws a
  \<open>TypeError\<close> exactly when the configuration has no \<open>formSections\<close>: \<open>sections\<close> is then
  \<open>undefined\<close> and its \<open>length\<close> is read. This holds of both dashboards.
\<close>

theorem FormsDashboard_requires_formSections:
  assumes "res_data (selectedResult (case eProp of Some b \<Rightarrow> b | None \<Rightarrow> cfg) infR regR) = Some fs"
      and "res_data r = Some fs" and "fs \<noteq> []"
  shows "(FormsDashboard eProp cfg formSections infR regR = Inl TypeError \<longleftrightarrow>
            formSections = None) \<and>
         (FormsDashboard_paged formSections r pageSize searchTerm = Inl TypeError \<longleftrightarrow>
            formSections = None)"
  using assms
  by (auto simp add: FormsDashboard_def FormsDashboard_paged_def sections_def Let_def
      split: option.splits)

theorem FormsDashboard_requires_formSections_witness:
  "res_data (selectedResult (case Some True of Some b \<Rightarrow> b | None \<Rightarrow> False)
       (formsResult (Some [formInfo ''u1'' ''Vitals'' None]) False True)
       (formsResult None False False)) = Some [formInfo ''u1'' ''Vitals'' None] \<and>
   res_data (formsResult (Some [formInfo ''u1'' ''Vitals'' None]) False False) =
     Some [formInfo ''u1'' ''Vitals'' None] \<and>
   [formInfo ''u1'' ''Vitals'' None] \<noteq> [] \<and>
   FormsDashboard (Some True) False None
       (formsResult (Some [formInfo ''u1'' ''Vitals'' None]) False True)
       (formsResult None False False) = Inl TypeError \<and>
   FormsDashboard_paged None (formsResult (Some [formInfo ''u1'' ''Vitals'' None]) False False)
       50 [] = Inl TypeError \<and>
   FormsDashboard (Some True) False (Some [])
       (formsResult (Some [formInfo ''u1'' ''Vitals'' None]) False True)
       (formsResult None False False) \<noteq> Inl TypeError"
  using FormsDashboard_requires_formSections
     [where eProp = "Some True" and cfg = False
        and infR = "formsResult (Some [formInfo ''u1'' ''Vitals'' None]) False True"
        and regR = "formsResult None False False" and fs = "[formInfo ''u1'' ''Vitals'' None]"
        and r = "formsResult (Some [formInfo ''u1'' ''Vitals'' None]) False False"
        and formSections = None and pageSize = 50 and searchTerm = "[]"]
    FormsDashboard_requires_formSections
     [where eProp = "Some True" and cfg = False
        and infR = "formsResult (Some [formInfo ''u1'' ''Vitals'' None]) False True"
        and regR = "formsResult None False False" and fs = "[formInfo ''u1'' ''Vitals'' None]"
        and r = "formsResult (Some [formInfo ''u1'' ''Vitals'' None]) False False"
        and formSections = "Some []" and pageSize = 50 and searchTerm = "[]"]
  by (simp add: selectedResult_def formsResult_def)

subsection \<open>The triggers of a continuation\<close>

text \<open>The sentinel is in the view exactly when \<open>rendersSentinel\<close> holds.\<close>

lemma rendersSentinel_view:
  "sentinel_of (FormsList match p searchTerm) \<noteq> None \<longleftrightarrow> rendersSentinel p"
  by (auto simp add: FormsList_def tableComponent_def rendersSentinel_def Let_def
      split: option.splits)

text \<open>What the callback ref leaves alone.\<close>

lemma setLoadMoreRef_frame:
  "loadMoreCalls (setLoadMoreRef p n c) = loadMoreCalls c"
  "recheckTimeout (setLoadMoreRef p n c) = recheckTimeout c"
  "rendered (setLoadMoreRef p n c) = rendered c"
  "orphans (setLoadMoreRef p n c) = orphans c"
  "observerCleanup (setLoadMoreRef p n c) = observerCleanup c"
  "sentinel (setLoadMoreRef p n c) = sentinel c"
  by (simp_all add: setLoadMoreRef_def Let_def split: option.splits)

lemma setLoadMoreRef_closure:
  "map_option callbackProps (observerRef (setLoadMoreRef p n c)) =
   map_option callbackProps (observerRef c)"
  by (simp add: setLoadMoreRef_def Let_def observe_def unobserve_def split: option.splits)

lemma detach_ref_frame:
  "loadMoreCalls (detach_ref p ids c) = loadMoreCalls c"
  "recheckTimeout (detach_ref p ids c) = recheckTimeout c"
  "rendered (detach_ref p ids c) = rendered c"
  "orphans (detach_ref p ids c) = orphans c"
  "observerCleanup (detach_ref p ids c) = observerCleanup c"
  by (simp_all add: detach_ref_def setLoadMoreRef_frame split: option.splits)

lemma detach_ref_closure:
  "map_option callbackProps (observerRef (detach_ref p ids c)) =
   map_option callbackProps (observerRef c)"
  by (simp add: detach_ref_def setLoadMoreRef_closure split: option.splits)

lemma attach_ref_frame:
  "loadMoreCalls (attach_ref p ids c) = loadMoreCalls c"
  "recheckTimeout (attach_ref p ids c) = recheckTimeout c"
  "rendered (attach_ref p ids c) = rendered c"
  "orphans (attach_ref p ids c) = orphans c"
  "observerCleanup (attach_ref p ids c) = observerCleanup c"
  by (simp_all add: attach_ref_def setLoadMoreRef_frame)

lemma attach_ref_closure:
  "map_option callbackProps (observerRef (attach_ref p ids c)) =
   map_option callbackProps (observerRef c)"
  by (simp add: attach_ref_def setLoadMoreRef_closure)

text \<open>The effects.\<close>

lemma observer_effect_frame:
  "loadMoreCalls (observer_effect p c) = loadMoreCalls c"
  "recheckTimeout (observer_effect p c) = recheckTimeout c"
  "rendered (observer_effect p c) = rendered c"
  by (simp_all add: observer_effect_def Let_def)

lemma observer_cleanup_frame:
  "loadMoreCalls (observer_cleanup c) = loadMoreCalls c"
  "recheckTimeout (observer_cleanup c) = recheckTimeout c"
  "rendered (observer_cleanup c) = rendered c"
  "orphans (observer_cleanup c) = orphans c"
  by (simp_all add: observer_cleanup_def split: option.splits)

lemma recheck_effect_frame:
  "loadMoreCalls (recheck_effect p c) = loadMoreCalls c"
  "rendered (recheck_effect p c) = rendered c"
  "orphans (recheck_effect p c) = orphans c"
  "observerRef (recheck_effect p c) = observerRef c"
  "observerCleanup (recheck_effect p c) = observerCleanup c"
  by (simp_all add: recheck_effect_def)

lemma recheck_cleanup_frame:
  "loadMoreCalls (recheck_cleanup c) = loadMoreCalls c"
  "rendered (recheck_cleanup c) = rendered c"
  "orphans (recheck_cleanup c) = orphans c"
  "observerRef (recheck_cleanup c) = observerRef c"
  "observerCleanup (recheck_cleanup c) = observerCleanup c"
  by (simp_all add: recheck_cleanup_def)


lemma run_effects_frame:
  "loadMoreCalls (run_effects p ids c) = loadMoreCalls c"
  "rendered (run_effects p ids c) = rendered c"
  by (simp_all add: run_effects_def Let_def observer_effect_frame observer_cleanup_frame
      recheck_effect_frame recheck_cleanup_frame)

lemma commit_calls: "loadMoreCalls (commit p ids c) = loadMoreCalls c"
  by (simp add: commit_def run_effects_frame attach_ref_frame detach_ref_frame)

lemma commit_rendered: "rendered (commit p ids c) = p"
  by (simp add: commit_def)






lemma observer_callback_guarded: "observer_callback p b = (b \<and> guarded p)"
  by (simp add: observer_callback_def guarded_def)

lemma foldl_call_loadMore:
  "rendered c = r \<Longrightarrow>
   foldl (\<lambda>c' ob. if P ob then call_loadMore via (f ob) c' else c') c obs =
   c\<lparr>loadMoreCalls := loadMoreCalls c @ map (\<lambda>ob. (via, f ob, r)) (filter P obs)\<rparr>"
proof (induction obs arbitrary: c)
  case Nil
  then show ?case by simp
next
  case (Cons ob obs)
  have r: "rendered (call_loadMore via (f ob) c) = r"
    using Cons.prems by (simp add: call_loadMore_def)
  show ?case
    using Cons.IH [OF r] Cons.IH [OF Cons.prems] Cons.prems
    by (simp add: call_loadMore_def)
qed

lemma notify_admitted:
  "notify n b c = c\<lparr>loadMoreCalls := loadMoreCalls c @ admitted n b c\<rparr>"
  unfolding notify_def admitted_def observer_callback_guarded
  by (rule foldl_call_loadMore) simp

lemma admitted_after_calls [simp]:
  "admitted n b (c\<lparr>loadMoreCalls := calls\<rparr>) = admitted n b c"
  by (simp add: admitted_def watchers_def)






lemma mount_calls: "loadMoreCalls (mount p) = []"
  by (simp add: mount_def Let_def recheck_effect_frame observer_effect_frame
      setLoadMoreRef_frame)


text \<open>The observer, while every render has infinite scrolling on and a \<open>loadMore\<close>.\<close>

lemma closure_Some:
  assumes "map_option callbackProps x = map_option callbackProps y"
      and "y = Some ob"
  obtains ob' where "x = Some ob'" and "callbackProps ob' = callbackProps ob"
  using assms by (cases x) auto

lemma observer_deps_guarded:
  "observer_deps q = observer_deps p \<Longrightarrow> guarded q = guarded p"
  by (simp add: observer_deps_def guarded_def)

lemma run_effects_observer:
  assumes "scrolling_on p"
      and "observerCleanup c"
      and "list_all (\<lambda>ob. targets ob = []) (orphans c)"
      and "observerRef c = Some ob"
      and "guarded (callbackProps ob) = guarded (rendered c)"
  shows "observerCleanup (run_effects p ids c) \<and>
         list_all (\<lambda>ob. targets ob = []) (orphans (run_effects p ids c)) \<and>
         (\<exists>ob'. observerRef (run_effects p ids c) = Some ob' \<and>
                guarded (callbackProps ob') = guarded p)"
proof (cases "observer_changed (rendered c) p ids")
  case True
  let ?c1 = "observer_effect p (observer_cleanup c)"
  have on: "enableInfiniteScrolling p" "loadMore p"
    using assms(1) by (simp_all add: scrolling_on_def)
  have c1: "observerCleanup ?c1"
       "orphans ?c1 = orphans c @ [disconnect ob]"
       "\<exists>ob'. observerRef ?c1 = Some ob' \<and> callbackProps ob' = p"
    using on assms(4)
    by (simp_all add: observer_effect_def observer_cleanup_def Let_def observe_def
        split: option.splits)
  have "run_effects p ids c =
          (if recheck_changed (rendered c) p ids
           then recheck_effect p (recheck_cleanup ?c1) else ?c1)"
    using True assms(2) by (simp add: run_effects_def Let_def)
  then have "observerCleanup (run_effects p ids c) = observerCleanup ?c1"
       and "orphans (run_effects p ids c) = orphans ?c1"
       and "observerRef (run_effects p ids c) = observerRef ?c1"
    by (simp_all add: recheck_effect_frame recheck_cleanup_frame)
  then show ?thesis
    using c1 assms(3) by (auto simp add: disconnect_def)
next
  case False
  then have same: "observer_deps (rendered c) = observer_deps p"
    by (simp add: observer_changed_def)
  have "run_effects p ids c =
          (if recheck_changed (rendered c) p ids
           then recheck_effect p (recheck_cleanup c) else c)"
    using False by (simp add: run_effects_def Let_def)
  then have "observerCleanup (run_effects p ids c) = observerCleanup c"
       and "orphans (run_effects p ids c) = orphans c"
       and "observerRef (run_effects p ids c) = observerRef c"
    by (simp_all add: recheck_effect_frame recheck_cleanup_frame)
  then show ?thesis
    using assms(2-5) observer_deps_guarded [OF same] by simp
qed

lemma commit_fields:
  "observerCleanup (commit p ids c) =
     observerCleanup (run_effects p ids (attach_ref p ids (detach_ref p ids c)))"
  "orphans (commit p ids c) =
     orphans (run_effects p ids (attach_ref p ids (detach_ref p ids c)))"
  "observerRef (commit p ids c) =
     observerRef (run_effects p ids (attach_ref p ids (detach_ref p ids c)))"
  by (simp_all add: commit_def)

lemma observer_inv_commit:
  assumes "observer_inv c" and "scrolling_on p"
  shows "observer_inv (commit p ids c)"
proof -
  let ?c = "attach_ref p ids (detach_ref p ids c)"
  obtain ob where ob: "observerRef c = Some ob"
      "guarded (callbackProps ob) = guarded (rendered c)"
    using assms(1) by (auto simp add: observer_inv_def split: option.splits)
  have "map_option callbackProps (observerRef ?c) = map_option callbackProps (observerRef c)"
    by (simp add: attach_ref_closure detach_ref_closure)
  then obtain ob' where ob': "observerRef ?c = Some ob'"
      "callbackProps ob' = callbackProps ob"
    using ob(1) by (rule closure_Some)
  have a: "observerCleanup ?c"
    using assms(1) by (simp add: observer_inv_def attach_ref_frame detach_ref_frame)
  have b: "list_all (\<lambda>ob. targets ob = []) (orphans ?c)"
    using assms(1) by (simp add: observer_inv_def attach_ref_frame detach_ref_frame)
  have d: "guarded (callbackProps ob') = guarded (rendered ?c)"
    using ob(2) ob'(2) by (simp add: attach_ref_frame detach_ref_frame)
  obtain ob'' where e: "observerCleanup (run_effects p ids ?c)"
      "list_all (\<lambda>ob. targets ob = []) (orphans (run_effects p ids ?c))"
      "observerRef (run_effects p ids ?c) = Some ob''"
      "guarded (callbackProps ob'') = guarded p"
    using run_effects_observer [OF assms(2) a b ob'(1) d] by blast
  have calls: "list_all (\<lambda>(via, captured, shown). via = ByObserver \<longrightarrow> guarded shown)
                 (loadMoreCalls (commit p ids c))"
    using assms(1) by (simp add: observer_inv_def commit_calls)
  show ?thesis
    unfolding observer_inv_def
    using e calls assms(2) by (simp add: commit_fields commit_rendered)
qed

lemma observer_inv_mount:
  assumes "scrolling_on p"
  shows "observer_inv (mount p)"
proof -
  let ?c0 = "\<lparr>rendered = p, sentinel = None, nextNode = 0, observerRef = None, orphans = [],
              observerCleanup = False, loadMoreRef = None, refTimeouts = [],
              recheckTimeout = None, loadMoreCalls = []\<rparr>"
  let ?c1 = "if rendersSentinel p
             then (setLoadMoreRef p (Some 0) ?c0)\<lparr>sentinel := Some 0, nextNode := 1\<rparr>
             else ?c0"
  have on: "enableInfiniteScrolling p" "loadMore p"
    using assms by (simp_all add: scrolling_on_def)
  have c1: "observerRef ?c1 = None" "orphans ?c1 = []" "rendered ?c1 = p"
    by (simp_all add: setLoadMoreRef_def Let_def)
  have m: "mount p = recheck_effect p (observer_effect p ?c1)"
    by (simp add: mount_def Let_def)
  have "observerCleanup (observer_effect p ?c1)"
       "orphans (observer_effect p ?c1) = []"
       "\<exists>ob. observerRef (observer_effect p ?c1) = Some ob \<and> callbackProps ob = p"
       "rendered (observer_effect p ?c1) = p"
    using on c1
    by (simp_all add: observer_effect_def Let_def observe_def split: option.splits)
  then have "observerCleanup (mount p)"
       and "orphans (mount p) = []"
       and "\<exists>ob. observerRef (mount p) = Some ob \<and> callbackProps ob = p"
       and "rendered (mount p) = p"
    unfolding m by (simp_all add: recheck_effect_frame)
  then show ?thesis
    unfolding observer_inv_def using assms by (auto simp add: mount_calls)
qed

lemma idle_orphans:
  "list_all (\<lambda>ob. targets ob = []) obs \<Longrightarrow>
   filter (\<lambda>ob. n \<in> set (targets ob) \<and> Q ob) obs = []"
  by (induction obs) simp_all

lemma admitted_observer_inv:
  assumes "observer_inv c"
  shows "\<not> guarded (rendered c) \<Longrightarrow> admitted n b c = []"
    and "list_all (\<lambda>(via, captured, shown). guarded shown) (admitted n b c)"
proof -
  obtain ob where ob: "observerRef c = Some ob"
      "guarded (callbackProps ob) = guarded (rendered c)"
    using assms by (auto simp add: observer_inv_def split: option.splits)
  have idle: "list_all (\<lambda>ob. targets ob = []) (orphans c)"
    using assms by (simp add: observer_inv_def)
  have adm: "admitted n b c =
               map (\<lambda>ob. (ByObserver, callbackProps ob, rendered c))
                 (filter (\<lambda>ob. n \<in> set (targets ob) \<and> b \<and> guarded (callbackProps ob)) [ob])"
    using ob(1) idle_orphans [OF idle] by (simp add: admitted_def watchers_def)
  show "\<not> guarded (rendered c) \<Longrightarrow> admitted n b c = []"
    using ob(2) by (simp add: adm)
  show "list_all (\<lambda>(via, captured, shown). guarded shown) (admitted n b c)"
    using ob(2) by (simp add: adm)
qed

lemma observer_inv_step:
  assumes "observer_inv c" and "event_on ev"
  shows "observer_inv (step c ev)"
proof (cases ev)
  case (Commit p ids)
  then show ?thesis using assms by (simp add: step_def observer_inv_commit)
next
  case (Intersect n b)
  have "list_all (\<lambda>(via, captured, shown). via = ByObserver \<longrightarrow> guarded shown) (admitted n b c)"
    using admitted_observer_inv(2) [OF assms(1), of n b] by (auto simp add: list_all_iff)
  then show ?thesis
    using assms(1) Intersect
    by (simp add: step_def notify_admitted observer_inv_def split: option.splits)
next
  case (RefTimeout nodeTop windowHeight)
  then show ?thesis
    using assms(1)
    by (simp add: step_def observer_inv_def call_loadMore_def refTimeout_body_def
        split: option.splits list.splits)
next
  case (RecheckTimeout m)
  then show ?thesis
    using assms(1)
    by (simp add: step_def observer_inv_def call_loadMore_def recheckTimeout_body_def
        split: option.splits)
qed

lemma observer_inv_foldl:
  "observer_inv c \<Longrightarrow> list_all event_on evs \<Longrightarrow> observer_inv (foldl step c evs)"
  by (induction evs arbitrary: c) (simp_all add: observer_inv_step)

lemma observer_inv_run:
  "scrolling_on p \<Longrightarrow> list_all event_on evs \<Longrightarrow> observer_inv (run p evs)"
  by (simp add: run_def observer_inv_foldl observer_inv_mount)

text \<open>
  Without that condition an observer is left behind. The effect that runs with infinite
  scrolling off returns early and leaves no cleanup, the observer of the render before stays
  in \<open>observerRef\<close>, the callback ref makes it observe the next sentinel, and the next run
  of the effect puts its own observer over it. What it has captured is never replaced: below it
  calls \<open>loadMore\<close> while the next page is being fetched.
\<close>

lemma observer_left_behind_calls_loadMore:
  "loadMoreCalls (run firstPageShown
      [Commit scrollingOff sameObjects, Commit firstPageShown sameObjects,
       Commit fetchingMore sameObjects, Intersect 1 True]) =
     [(ByObserver, firstPageShown, fetchingMore)] \<and>
   isValidating fetchingMore"
  by code_simp

text \<open>
  C1, as the code has it. Nothing is set when a request is admitted: a report of an
  intersection makes one call of \<open>loadMore\<close> for every observer that observes the node and
  whose render saw \<open>hasMore\<close> and no validation, and it changes nothing else, so a second
  report straight after it makes the same calls again. A report makes no call once the list
  has been rendered with \<open>isValidating\<close> true or with \<open>hasMore\<close> false, as long as every
  render has had infinite scrolling on and a \<open>loadMore\<close>: the observer is then the one of the
  last render that changed either value.
\<close>

theorem admission_is_decided_per_render:
  "foldl step c [Intersect n b, Intersect n b] =
     c\<lparr>loadMoreCalls := loadMoreCalls c @ admitted n b c @ admitted n b c\<rparr> \<and>
   (scrolling_on p \<and> list_all event_on evs \<and>
    (isValidating (rendered (run p evs)) \<or> \<not> hasMore (rendered (run p evs))) \<longrightarrow>
      step (run p evs) (Intersect n b) = run p evs)"
proof
  show "foldl step c [Intersect n b, Intersect n b] =
     c\<lparr>loadMoreCalls := loadMoreCalls c @ admitted n b c @ admitted n b c\<rparr>"
    by (simp add: step_def notify_admitted)
next
  show "scrolling_on p \<and> list_all event_on evs \<and>
    (isValidating (rendered (run p evs)) \<or> \<not> hasMore (rendered (run p evs))) \<longrightarrow>
      step (run p evs) (Intersect n b) = run p evs"
  proof
    assume a: "scrolling_on p \<and> list_all event_on evs \<and>
      (isValidating (rendered (run p evs)) \<or> \<not> hasMore (rendered (run p evs)))"
    then have inv: "observer_inv (run p evs)"
      by (simp add: observer_inv_run)
    have "\<not> guarded (rendered (run p evs))"
      using a by (auto simp add: guarded_def)
    then have "admitted n b (run p evs) = []"
      by (rule admitted_observer_inv(1) [OF inv])
    then show "step (run p evs) (Intersect n b) = run p evs"
      by (simp add: step_def notify_admitted)
  qed
qed

theorem admission_is_decided_per_render_witness:
  "loadMoreCalls (foldl step (run initialLoad [Commit firstPageShown newForms])
       [Intersect 0 True, Intersect 0 True]) =
     [(ByObserver, firstPageShown, firstPageShown), (ByObserver, firstPageShown, firstPageShown)] \<and>
   scrolling_on initialLoad \<and>
   list_all event_on
     [Commit firstPageShown newForms, Intersect 0 True, Commit fetchingMore sameObjects] \<and>
   isValidating (rendered (run initialLoad
     [Commit firstPageShown newForms, Intersect 0 True, Commit fetchingMore sameObjects])) \<and>
   step (run initialLoad
       [Commit firstPageShown newForms, Intersect 0 True, Commit fetchingMore sameObjects])
     (Intersect 0 True) =
     run initialLoad
       [Commit firstPageShown newForms, Intersect 0 True, Commit fetchingMore sameObjects]"
proof -
  let ?c = "run initialLoad [Commit firstPageShown newForms]"
  let ?evs = "[Commit firstPageShown newForms, Intersect 0 True, Commit fetchingMore sameObjects]"
  have h1: "scrolling_on initialLoad" by code_simp
  have h2: "list_all event_on ?evs" by code_simp
  have h3: "isValidating (rendered (run initialLoad ?evs))" by code_simp
  have n: "loadMoreCalls ?c = []" by code_simp
  have a: "admitted 0 True ?c = [(ByObserver, firstPageShown, firstPageShown)]" by code_simp
  show ?thesis
    using admission_is_decided_per_render
      [where c = ?c and n = 0 and b = True and p = initialLoad and evs = ?evs]
      h1 h2 h3 n a
    by simp
qed

text \<open>
  The claim as stated fails: two reports of an intersection in immediate succession, with no
  commit and no response between them, are both admitted.
\<close>

theorem two_requests_both_admitted:
  "loadMoreCalls (run initialLoad
      [Commit firstPageShown newForms, Intersect 0 True, Intersect 0 True]) =
     [(ByObserver, firstPageShown, firstPageShown), (ByObserver, firstPageShown, firstPageShown)]"
  by code_simp




text \<open>
  C4 fails on the code. The 100 ms timeout of the callback ref is never cleared (the 300 ms
  timeout of the effect is, by its cleanup). Set by the render that showed the first page, it
  runs after the list has been rendered with \<open>hasMore\<close> false, tests the \<open>hasMore\<close> it has
  captured, and calls \<open>loadMore\<close>: the second call below, made while \<open>allShown\<close> is rendered.
\<close>

theorem stale_timeout_calls_loadMore_when_exhausted:
  "loadMoreCalls (run initialLoad
      [Commit firstPageShown newForms, Intersect 0 True, Commit fetchingMore sameObjects,
       Commit allShown newForms, RefTimeout 0 800]) =
     [(ByObserver, firstPageShown, firstPageShown), (ByRefTimeout, firstPageShown, allShown)] \<and>
   rendered (run initialLoad
      [Commit firstPageShown newForms, Intersect 0 True, Commit fetchingMore sameObjects,
       Commit allShown newForms]) = allShown \<and>
   \<not> hasMore allShown"
  by code_simp

subsection \<open>Searching\<close>

text \<open>The table of the infinite-scrolling list holds the handler \<open>tableHandleSearch\<close>.\<close>

lemma tableHandleSearch_view:
  "table_of (FormsList match p searchTerm) = Some (FormsTable rows h shownTotal) \<Longrightarrow>
   h = tableHandleSearch p"
  by (auto simp add: FormsList_def tableComponent_def tableHandleSearch_def Let_def
      split: if_splits)

text \<open>After a burst the last input is pending, and nothing has been emitted on the way.\<close>

lemma burst_pending:
  assumes "ins \<noteq> []" and "burst wait ins" and "mounted s"
      and "case timer s of None \<Rightarrow> True | Some (due, arg) \<Rightarrow> fst (hd ins) < due"
  shows "foldl (search_step (DebouncedHandleSearch wait) body) s (inputs ins) =
         s\<lparr>timer := Some (fst (last ins) + wait, snd (last ins))\<rparr>"
  using assms
proof (induction ins arbitrary: s)
  case Nil
  then show ?case by simp
next
  case (Cons x rest)
  obtain t1 v1 where x: "x = (t1, v1)" by (cases x)
  let ?s1 = "search_step (DebouncedHandleSearch wait) body s (Input t1 v1)"
  have e: "elapse body t1 s = s"
    using Cons.prems(4) x by (auto simp add: elapse_def split: option.splits)
  have s1: "?s1 = s\<lparr>timer := Some (t1 + wait, v1)\<rparr>"
    using Cons.prems(3) e by (simp add: search_step_def Let_def)
  show ?case
  proof (cases rest)
    case Nil
    then show ?thesis using s1 x by (simp add: inputs_def)
  next
    case (Cons y rest')
    obtain t2 v2 where y: "y = (t2, v2)" by (cases y)
    have b: "t1 \<le> t2" "t2 < t1 + wait" "burst wait rest"
      using Cons.prems(2) x Cons y by simp_all
    have "foldl (search_step (DebouncedHandleSearch wait) body) ?s1 (inputs rest) =
          ?s1\<lparr>timer := Some (fst (last rest) + wait, snd (last rest))\<rparr>"
    proof (rule Cons.IH)
      show "rest \<noteq> []" using Cons by simp
      show "burst wait rest" by (rule b(3))
      show "mounted ?s1" using s1 Cons.prems(3) by simp
      show "case timer ?s1 of None \<Rightarrow> True | Some (due, arg) \<Rightarrow> fst (hd rest) < due"
        using s1 b(2) Cons y by simp
    qed
    then show ?thesis using s1 x Cons by (simp add: inputs_def)
  qed
qed

lemma burst_run:
  assumes "ins \<noteq> []" and "burst wait ins"
  shows "emitted (search_run (DebouncedHandleSearch wait) body (inputs ins) horizon) =
         (if fst (last ins) + wait \<le> horizon
          then map (Pair (fst (last ins) + wait)) (body (snd (last ins)))
          else [])"
proof -
  let ?s0 = "\<lparr>mounted = True, timer = None, emitted = []\<rparr>"
  have "foldl (search_step (DebouncedHandleSearch wait) body) ?s0 (inputs ins) =
        ?s0\<lparr>timer := Some (fst (last ins) + wait, snd (last ins))\<rparr>"
    by (rule burst_pending) (use assms in simp_all)
  then show ?thesis by (simp add: search_run_def elapse_def)
qed

text \<open>An unmount after the burst and before the call is due changes nothing of it.\<close>

lemma burst_unmount_run:
  assumes "ins \<noteq> []" and "burst wait ins" and "u < fst (last ins) + wait"
  shows "emitted (search_run (DebouncedHandleSearch wait) body (inputs ins @ [Unmount u]) horizon) =
         (if fst (last ins) + wait \<le> horizon
          then map (Pair (fst (last ins) + wait)) (body (snd (last ins)))
          else [])"
proof -
  let ?s0 = "\<lparr>mounted = True, timer = None, emitted = []\<rparr>"
  have "foldl (search_step (DebouncedHandleSearch wait) body) ?s0 (inputs ins) =
        ?s0\<lparr>timer := Some (fst (last ins) + wait, snd (last ins))\<rparr>"
    by (rule burst_pending) (use assms in simp_all)
  then show ?thesis
    using assms(3) by (simp add: search_run_def elapse_def search_step_def)
qed





text \<open>
  C5, as the code has it. For a burst of inputs, each less than the wait after the one before,
  the debounced handler runs once, at the wait after the last input and with the text of the
  last input; nothing is emitted before. The wait is 300 ms in the client-side list and
  1000 ms in the infinite-scrolling list, whose table gets the debounced handler unless
  infinite scrolling is on and \<open>onSearch\<close> is given.
\<close>

theorem debounced_burst_commits_last_input_once:
  assumes "ins \<noteq> []"
  shows "(burst 300 ins \<longrightarrow>
            FormsList_client_search (inputs ins) horizon =
              (if fst (last ins) + 300 \<le> horizon
               then [(fst (last ins) + 300, SetSearchTerm (snd (last ins)))]
               else [])) \<and>
         (burst 1000 ins \<and> \<not> (enableInfiniteScrolling p \<and> onSearch p) \<longrightarrow>
            FormsList_search p (inputs ins) horizon =
              (if fst (last ins) + 1000 \<le> horizon
               then map (Pair (fst (last ins) + 1000)) (handleSearch_body p (snd (last ins)))
               else []))"
proof (intro conjI impI)
  assume "burst 300 ins"
  then show "FormsList_client_search (inputs ins) horizon =
              (if fst (last ins) + 300 \<le> horizon
               then [(fst (last ins) + 300, SetSearchTerm (snd (last ins)))]
               else [])"
    using burst_run [OF assms, of 300 handleSearch_body_client horizon]
    by (simp add: FormsList_client_search_def handleSearch_body_client_def)
next
  assume a: "burst 1000 ins \<and> \<not> (enableInfiniteScrolling p \<and> onSearch p)"
  then have "tableHandleSearch p = DebouncedHandleSearch 1000"
    by (auto simp add: tableHandleSearch_def)
  then show "FormsList_search p (inputs ins) horizon =
              (if fst (last ins) + 1000 \<le> horizon
               then map (Pair (fst (last ins) + 1000)) (handleSearch_body p (snd (last ins)))
               else [])"
    using burst_run [OF assms, of 1000 "handleSearch_body p" horizon] a
    by (simp add: FormsList_search_def)
qed

theorem debounced_burst_commits_last_input_once_witness:
  "[(0, ''v''), (200, ''vi''), (450, ''vit'')] \<noteq> [] \<and>
   burst 300 [(0, ''v''), (200, ''vi''), (450, ''vit'')] \<and>
   burst 1000 [(0, ''v''), (200, ''vi''), (450, ''vit'')] \<and>
   \<not> (enableInfiniteScrolling (plainList (Some firstPage)) \<and> onSearch (plainList (Some firstPage))) \<and>
   FormsList_client_search (inputs [(0, ''v''), (200, ''vi''), (450, ''vit'')]) 749 = [] \<and>
   FormsList_client_search (inputs [(0, ''v''), (200, ''vi''), (450, ''vit'')]) 750 =
     [(750, SetSearchTerm ''vit'')] \<and>
   FormsList_search (plainList (Some firstPage))
       (inputs [(0, ''v''), (200, ''vi''), (450, ''vit'')]) 2000 =
     [(1450, SetSearchTerm ''vit''), (1450, OnSearch ''vit'')]"
proof -
  let ?ins = "[(0::nat, ''v''), (200, ''vi''), (450, ''vit'')]"
  have ne: "?ins \<noteq> []" by simp
  have b: "burst 300 ?ins" "burst 1000 ?ins" by simp_all
  have m: "\<not> (enableInfiniteScrolling (plainList (Some firstPage)) \<and>
               onSearch (plainList (Some firstPage)))"
    by (simp add: plainList_def)
  show ?thesis
    using debounced_burst_commits_last_input_once [OF ne, of 749 "plainList (Some firstPage)"]
      debounced_burst_commits_last_input_once [OF ne, of 750 "plainList (Some firstPage)"]
      debounced_burst_commits_last_input_once [OF ne, of 2000 "plainList (Some firstPage)"]
      b m
    by (simp add: handleSearch_body_def plainList_def)
qed

text \<open>
  The claim as stated fails in server mode: with infinite scrolling on and \<open>onSearch\<close>
  given the table calls \<open>onSearch\<close> itself, so every input is passed on at once, the
  intermediate ones included. And a debounced handler commits once for every burst, not once
  for every sequence: two inputs five seconds apart are two commits.
\<close>

theorem inputs_committed_more_than_once:
  "FormsList_search firstPageShown (inputs [(0, ''v''), (50, ''vi'')]) 2000 =
     [(0, OnSearch ''v''), (50, OnSearch ''vi'')] \<and>
   FormsList_client_search (inputs [(0, ''v''), (5000, ''vi'')]) 6000 =
     [(300, SetSearchTerm ''v''), (5300, SetSearchTerm ''vi'')]"
  by code_simp

text \<open>
  C8, as the code has it. Unmounting cancels nothing: when the list is unmounted after a
  burst and before the debounced call is due, the call still runs when it is due, with the
  text of the last input.
\<close>

theorem unmount_keeps_pending_commit:
  assumes "ins \<noteq> []" and "fst (last ins) \<le> u"
  shows "(burst 300 ins \<and> u < fst (last ins) + 300 \<longrightarrow>
            FormsList_client_search (inputs ins @ [Unmount u]) horizon =
              (if fst (last ins) + 300 \<le> horizon
               then [(fst (last ins) + 300, SetSearchTerm (snd (last ins)))]
               else [])) \<and>
         (burst 1000 ins \<and> u < fst (last ins) + 1000 \<and>
          \<not> (enableInfiniteScrolling p \<and> onSearch p) \<longrightarrow>
            FormsList_search p (inputs ins @ [Unmount u]) horizon =
              (if fst (last ins) + 1000 \<le> horizon
               then map (Pair (fst (last ins) + 1000)) (handleSearch_body p (snd (last ins)))
               else []))"
proof (intro conjI impI)
  assume "burst 300 ins \<and> u < fst (last ins) + 300"
  then show "FormsList_client_search (inputs ins @ [Unmount u]) horizon =
              (if fst (last ins) + 300 \<le> horizon
               then [(fst (last ins) + 300, SetSearchTerm (snd (last ins)))]
               else [])"
    using burst_unmount_run [OF assms(1), of 300 u handleSearch_body_client horizon]
    by (simp add: FormsList_client_search_def handleSearch_body_client_def)
next
  assume a: "burst 1000 ins \<and> u < fst (last ins) + 1000 \<and>
          \<not> (enableInfiniteScrolling p \<and> onSearch p)"
  then have "tableHandleSearch p = DebouncedHandleSearch 1000"
    by (auto simp add: tableHandleSearch_def)
  then show "FormsList_search p (inputs ins @ [Unmount u]) horizon =
              (if fst (last ins) + 1000 \<le> horizon
               then map (Pair (fst (last ins) + 1000)) (handleSearch_body p (snd (last ins)))
               else [])"
    using burst_unmount_run [OF assms(1), of 1000 u "handleSearch_body p" horizon] a
    by (simp add: FormsList_search_def)
qed

theorem unmount_keeps_pending_commit_witness:
  "[(0, ''v''), (200, ''vi'')] \<noteq> [] \<and>
   fst (last [(0::nat, ''v''), (200, ''vi'')]) \<le> 250 \<and>
   burst 300 [(0, ''v''), (200, ''vi'')] \<and> 250 < fst (last [(0::nat, ''v''), (200, ''vi'')]) + 300 \<and>
   burst 1000 [(0, ''v''), (200, ''vi'')] \<and> 250 < fst (last [(0::nat, ''v''), (200, ''vi'')]) + 1000 \<and>
   \<not> (enableInfiniteScrolling (plainList (Some firstPage)) \<and> onSearch (plainList (Some firstPage))) \<and>
   FormsList_client_search (inputs [(0, ''v''), (200, ''vi'')] @ [Unmount 250]) 500 =
     [(500, SetSearchTerm ''vi'')] \<and>
   FormsList_search (plainList (Some firstPage))
       (inputs [(0, ''v''), (200, ''vi'')] @ [Unmount 250]) 1200 =
     [(1200, SetSearchTerm ''vi''), (1200, OnSearch ''vi'')]"
proof -
  let ?ins = "[(0::nat, ''v''), (200, ''vi'')]"
  have ne: "?ins \<noteq> []" by simp
  have u: "fst (last ?ins) \<le> 250" by simp
  have b: "burst 300 ?ins" "burst 1000 ?ins" by simp_all
  have m: "\<not> (enableInfiniteScrolling (plainList (Some firstPage)) \<and>
               onSearch (plainList (Some firstPage)))"
    by (simp add: plainList_def)
  show ?thesis
    using unmount_keeps_pending_commit [OF ne u, of 500 "plainList (Some firstPage)"]
      unmount_keeps_pending_commit [OF ne u, of 1200 "plainList (Some firstPage)"]
      b m
    by (simp add: handleSearch_body_def plainList_def)
qed

text \<open>
  The claim as stated fails: a term typed at 0 ms is committed at the end of the wait although
  the list was unmounted at 100 ms.
\<close>

theorem commit_fires_after_teardown:
  "FormsList_client_search [Input 0 ''vit'', Unmount 100] 300 = [(300, SetSearchTerm ''vit'')] \<and>
   FormsList_search (plainList (Some firstPage)) [Input 0 ''vit'', Unmount 100] 1000 =
     [(1000, SetSearchTerm ''vit''), (1000, OnSearch ''vit'')]"
  by code_simp




subsection \<open>The loader\<close>












end
